theory Spec2Isabelle
  imports Complex_Main "HOL-Library.Word"
begin

section \<open>Pixel buffers and JavaScript numbers\<close>

text \<open>
  The pixel-processing services of the editor work on canvas \<open>ImageData\<close> values: a
  width, a height and a \<open>Uint8ClampedArray\<close> of RGBA bytes, row-major. A byte is an
  8-bit word, so every sample lies in 0..255 by type.

  JavaScript numbers are modelled as real numbers with exact arithmetic: the rounding of
  IEEE doubles is not modelled. Where the source can divide by zero (and JavaScript would
  produce \<open>NaN\<close> or an infinity) the model says so at the definition concerned.
\<close>

type_synonym byte = "8 word"

record ImageData =
  img_data :: "byte list"
  img_width :: nat
  img_height :: nat

text \<open>
  The browser only constructs \<open>ImageData\<close> values with positive dimensions (of type
  \<open>unsigned long\<close>) whose data array holds exactly four bytes per pixel.
\<close>

definition wf_image :: "ImageData \<Rightarrow> bool" where
  "wf_image img \<longleftrightarrow>
     0 < img_width img \<and> img_width img < 2 ^ 32 \<and>
     0 < img_height img \<and> img_height img < 2 ^ 32 \<and>
     length (img_data img) = img_width img * img_height img * 4"

text \<open>\<open>Math.round\<close>: the nearest integer, a tie going up.\<close>

definition js_round :: "real \<Rightarrow> int" where
  "js_round v = \<lfloor>v + 1 / 2\<rfloor>"

definition byte_val :: "byte \<Rightarrow> real" where
  "byte_val v = real (unat v)"

section \<open>Histogram analysis (src/services/imageAnalysis.ts)\<close>

record HistogramData =
  luminance :: "nat list"
  red :: "nat list"
  green :: "nat list"
  blue :: "nat list"

record ImageAnalysisResult =
  averageLuminance :: real
  contrastLevel :: real
  saturationLevel :: real
  recommendedBrightness :: real
  recommendedContrast :: real
  recommendedSaturation :: real

text \<open>The state of the loop of \<open>analyzeImageHistogram\<close>: the four histograms and the two sums.\<close>

record hist_state =
  histogram :: HistogramData
  totalLuminance :: real
  totalSaturation :: real

text \<open>\<open>arr[i]++\<close> on an array of counters.\<close>

definition incr :: "nat list \<Rightarrow> nat \<Rightarrow> nat list" where
  "incr arr i = arr[i := arr ! i + 1]"

text \<open>
  The luminance of a pixel. The weighted sum is exact here; the source adds doubles, and
  where the exact sum has a fractional part of one half (as for 0.587 * 36 + 0.114 * 12)
  the double sum can lie just below it, so that the rounded value is one less.
\<close>

definition pixel_luminance :: "byte \<Rightarrow> byte \<Rightarrow> byte \<Rightarrow> int" where
  "pixel_luminance r g b =
     js_round (0.299 * byte_val r + 0.587 * byte_val g + 0.114 * byte_val b)"

definition pixel_saturation :: "byte \<Rightarrow> byte \<Rightarrow> byte \<Rightarrow> real" where
  "pixel_saturation r g b =
     (let mx = max (byte_val r) (max (byte_val g) (byte_val b));
          mn = min (byte_val r) (min (byte_val g) (byte_val b))
      in if mx = 0 then 0 else (mx - mn) / mx)"

text \<open>One pass of the loop body for a pixel that is not skipped.\<close>

definition hist_step :: "byte \<Rightarrow> byte \<Rightarrow> byte \<Rightarrow> hist_state \<Rightarrow> hist_state" where
  "hist_step r g b st =
     (let lum = pixel_luminance r g b; h = histogram st
      in \<lparr> histogram = \<lparr> luminance = incr (luminance h) (nat lum),
                          red = incr (red h) (unat r),
                          green = incr (green h) (unat g),
                          blue = incr (blue h) (unat b) \<rparr>,
           totalLuminance = totalLuminance st + real_of_int lum,
           totalSaturation = totalSaturation st + pixel_saturation r g b \<rparr>)"

text \<open>
  The loop \<open>for (i = 0; i < data.length; i += 4)\<close>, four bytes at a time; a pixel whose
  alpha is 0 is skipped (\<open>continue\<close>). The data of an \<open>ImageData\<close> is a whole number of
  pixels, so the last equation is only reached with the empty list.
\<close>

fun hist_loop :: "byte list \<Rightarrow> hist_state \<Rightarrow> hist_state" where
  "hist_loop (r # g # b # alpha # rest) st =
     (if alpha = 0 then hist_loop rest st else hist_loop rest (hist_step r g b st))"
| "hist_loop _ st = st"

text \<open>
  The two scans of \<open>calculateContrastLevel\<close>. The first walks the bins upwards from
  \<open>i\<close> and stops (\<open>break\<close>) at the first bin where the running count exceeds the
  threshold; when none does, \<open>minSignificant\<close> keeps its initial value 0. The second
  walks downwards from bin \<open>n - 1\<close>; when no bin stops it, \<open>maxSignificant\<close> keeps 255.
\<close>

function minScan :: "nat list \<Rightarrow> real \<Rightarrow> nat \<Rightarrow> real \<Rightarrow> nat" where
  "minScan h threshold i cumulative =
     (if i < 256
      then (let c = cumulative + real (h ! i)
            in if c > threshold then i else minScan h threshold (i + 1) c)
      else 0)"
  by pat_completeness auto
termination
  by (relation "measure (\<lambda>(h, threshold, i, cumulative). 256 - i)") auto

declare minScan.simps [simp del]

fun maxScan :: "nat list \<Rightarrow> real \<Rightarrow> nat \<Rightarrow> real \<Rightarrow> nat" where
  "maxScan h threshold 0 cumulative = 255"
| "maxScan h threshold (Suc i) cumulative =
     (let c = cumulative + real (h ! i)
      in if c > threshold then i else maxScan h threshold i c)"

definition calculateContrastLevel :: "nat list \<Rightarrow> real" where
  "calculateContrastLevel luminanceHistogram =
     (let totalPixels = real (sum_list luminanceHistogram);
          threshold = totalPixels * 0.01;
          minSignificant = minScan luminanceHistogram threshold 0 0;
          maxSignificant = maxScan luminanceHistogram threshold 256 0
      in (real maxSignificant - real minSignificant) / 255)"

definition calculateBrightnessAdjustment :: "real \<Rightarrow> real" where
  "calculateBrightnessAdjustment avgLum =
     (let difference = 128 - avgLum
      in max (- 80) (min 80 ((difference / 128) * 60)))"

definition calculateContrastAdjustment :: "real \<Rightarrow> real" where
  "calculateContrastAdjustment level =
     (let difference = 0.8 - level
      in if difference > 0 then min 50 (difference * 100)
         else max (- 20) (difference * 50))"

definition calculateSaturationAdjustment :: "real \<Rightarrow> real" where
  "calculateSaturationAdjustment averageSaturation =
     (let difference = 0.4 - averageSaturation
      in if difference > 0 then min 40 (difference * 150)
         else if averageSaturation > 0.6 then max (- 20) (difference * 100)
         else 0)"

definition initial_hist_state :: hist_state where
  "initial_hist_state =
     \<lparr> histogram = \<lparr> luminance = replicate 256 0, red = replicate 256 0,
                     green = replicate 256 0, blue = replicate 256 0 \<rparr>,
       totalLuminance = 0, totalSaturation = 0 \<rparr>"

text \<open>
  \<open>analyzeImageHistogram\<close>. Both averages divide by \<open>pixelCount = width * height\<close>; for
  an image without pixels JavaScript computes \<open>0 / 0 = NaN\<close>, which the model does not
  represent (HOL gives 0): such an image is not a \<open>wf_image\<close>.
\<close>

definition analyzeImageHistogram :: "ImageData \<Rightarrow> ImageAnalysisResult" where
  "analyzeImageHistogram imageData =
     (let pixelCount = real (img_width imageData * img_height imageData);
          st = hist_loop (img_data imageData) initial_hist_state;
          avgLum = totalLuminance st / pixelCount;
          averageSaturation = totalSaturation st / pixelCount;
          level = calculateContrastLevel (luminance (histogram st))
      in \<lparr> averageLuminance = avgLum,
           contrastLevel = level,
           saturationLevel = averageSaturation,
           recommendedBrightness = calculateBrightnessAdjustment avgLum,
           recommendedContrast = calculateContrastAdjustment level,
           recommendedSaturation = calculateSaturationAdjustment averageSaturation \<rparr>)"

text \<open>
  What the specification asks of the two averages, written from its words: the mean,
  over the pixels whose alpha is not 0, of the rounded luminance and of the saturation.
\<close>

fun opaque_pixels :: "byte list \<Rightarrow> (byte \<times> byte \<times> byte) list" where
  "opaque_pixels (r # g # b # alpha # rest) =
     (if alpha = 0 then opaque_pixels rest else (r, g, b) # opaque_pixels rest)"
| "opaque_pixels _ = []"

definition spec_averageLuminance :: "ImageData \<Rightarrow> real" where
  "spec_averageLuminance img =
     (let ps = opaque_pixels (img_data img)
      in (\<Sum>(r, g, b) \<leftarrow> ps. real_of_int (pixel_luminance r g b)) / real (length ps))"

definition spec_saturationLevel :: "ImageData \<Rightarrow> real" where
  "spec_saturationLevel img =
     (let ps = opaque_pixels (img_data img)
      in (\<Sum>(r, g, b) \<leftarrow> ps. pixel_saturation r g b) / real (length ps))"

text \<open>A 2x1 image: one opaque pixel of RGB (200,100,50), one fully transparent pixel.\<close>

definition half_transparent :: ImageData where
  "half_transparent =
     \<lparr> img_data = [200, 100, 50, 255, 0, 0, 0, 0], img_width = 2, img_height = 1 \<rparr>"

section \<open>Mask-driven cropping (src/services/autoCrop.ts)\<close>

text \<open>
  \<open>CropBounds\<close> has four number fields. The crop computation works on JavaScript
  numbers (\<open>real CropBounds\<close>); the copy of a sub-block is modelled for rectangles whose
  fields are integers (\<open>int CropBounds\<close>).
\<close>

record 'a CropBounds =
  cb_x :: 'a
  cb_y :: 'a
  cb_width :: 'a
  cb_height :: 'a

text \<open>The two options that \<open>findOptimalCropBounds\<close> reads; \<open>None\<close> is an absent option.\<close>

record AutoCropOptions =
  paddingPercentage :: "real option"
  minCropSize :: "real option"

text \<open>
  The segmentation's \<open>data\<close> array holds one label per pixel. Reading past its end
  gives \<open>undefined\<close>, which is not the label 1.
\<close>

definition seg_at :: "nat list \<Rightarrow> nat \<Rightarrow> nat option" where
  "seg_at d i = (if i < length d then Some (d ! i) else None)"

record scan_state =
  minX :: nat
  maxX :: nat
  minY :: nat
  maxY :: nat
  subjectPixelCount :: nat

text \<open>The body of the inner loop of \<open>findSubjectBounds\<close>, at row \<open>y\<close> and column \<open>x\<close>.\<close>

definition scan_pixel :: "nat list \<Rightarrow> nat \<Rightarrow> nat \<Rightarrow> nat \<Rightarrow> scan_state \<Rightarrow> scan_state" where
  "scan_pixel d width y x st =
     (let index = y * width + x
      in if seg_at d index = Some 1
         then \<lparr> minX = min (minX st) x, maxX = max (maxX st) x,
                minY = min (minY st) y, maxY = max (maxY st) y,
                subjectPixelCount = subjectPixelCount st + 1 \<rparr>
         else st)"

definition findSubjectBounds :: "nat list \<Rightarrow> nat \<Rightarrow> nat \<Rightarrow> real CropBounds option" where
  "findSubjectBounds d width height =
     (let st = fold (\<lambda>y. fold (scan_pixel d width y) [0..<width]) [0..<height]
                 \<lparr> minX = width, maxX = 0, minY = height, maxY = 0, subjectPixelCount = 0 \<rparr>
      in if subjectPixelCount st = 0 then None
         else Some \<lparr> cb_x = real (minX st), cb_y = real (minY st),
                     cb_width = real (maxX st) - real (minX st) + 1,
                     cb_height = real (maxY st) - real (minY st) + 1 \<rparr>)"

text \<open>
  \<open>applyCropPadding\<close>. The products \<open>width * paddingPercentage\<close> and
  \<open>height * paddingPercentage\<close> are exact here; the source multiplies doubles, and at a
  tie of the rounding (a product whose fractional part is one half in one arithmetic
  and not in the other) the padding in pixels can differ by one. With a padding
  percentage of 0 both products are 0 in either arithmetic.
\<close>

definition applyCropPadding :: "real CropBounds \<Rightarrow> real \<Rightarrow> real \<Rightarrow> real \<Rightarrow> real CropBounds" where
  "applyCropPadding bounds imageWidth imageHeight padding =
     (let paddingX = real_of_int (js_round (cb_width bounds * padding));
          paddingY = real_of_int (js_round (cb_height bounds * padding));
          px = max 0 (cb_x bounds - paddingX);
          py = max 0 (cb_y bounds - paddingY);
          pw = cb_width bounds + 2 * paddingX;
          ph = cb_height bounds + 2 * paddingY
      in \<lparr> cb_x = px, cb_y = py,
           cb_width = (if px + pw > imageWidth then imageWidth - px else pw),
           cb_height = (if py + ph > imageHeight then imageHeight - py else ph) \<rparr>)"

text \<open>The center crop that \<open>findOptimalCropBounds\<close> starts from when no subject is found.\<close>

definition fallbackBounds :: "nat \<Rightarrow> nat \<Rightarrow> real CropBounds" where
  "fallbackBounds width height =
     (let cropSize = real (min width height) * 0.8
      in \<lparr> cb_x = real_of_int (js_round ((real width - cropSize) / 2)),
           cb_y = real_of_int (js_round ((real height - cropSize) / 2)),
           cb_width = cropSize, cb_height = cropSize \<rparr>)"

text \<open>The body of the branch "ensure minimum crop size"; both dimensions are not 0 here.\<close>

definition enforceMinCropSize :: "real CropBounds \<Rightarrow> real \<Rightarrow> real CropBounds" where
  "enforceMinCropSize bounds minSize =
     (let scale = max (minSize / cb_width bounds) (minSize / cb_height bounds);
          newWidth = real_of_int (js_round (cb_width bounds * scale));
          newHeight = real_of_int (js_round (cb_height bounds * scale))
      in \<lparr> cb_x = max 0 (cb_x bounds - real_of_int (js_round ((newWidth - cb_width bounds) / 2))),
           cb_y = max 0 (cb_y bounds - real_of_int (js_round ((newHeight - cb_height bounds) / 2))),
           cb_width = newWidth, cb_height = newHeight \<rparr>)"

text \<open>
  The test \<open>aspectRatio > 3 || aspectRatio < 0.33\<close> on \<open>width / height\<close>. With a
  height of 0 the JavaScript quotient is an infinity, which passes one of the two
  comparisons, unless the width is 0 as well: then it is \<open>NaN\<close> and both are false.
\<close>

definition aspect_extreme :: "real \<Rightarrow> real \<Rightarrow> bool" where
  "aspect_extreme w h = (if h = 0 then w \<noteq> 0 else w / h > 3 \<or> w / h < 0.33)"

definition squareBounds :: "real CropBounds \<Rightarrow> real CropBounds" where
  "squareBounds bounds =
     (let targetSize = min (cb_width bounds) (cb_height bounds);
          centerX = cb_x bounds + cb_width bounds / 2;
          centerY = cb_y bounds + cb_height bounds / 2
      in \<lparr> cb_x = max 0 (real_of_int (js_round (centerX - targetSize / 2))),
           cb_y = max 0 (real_of_int (js_round (centerY - targetSize / 2))),
           cb_width = targetSize, cb_height = targetSize \<rparr>)"

text \<open>
  \<open>findOptimalCropBounds\<close>. The only division by zero that reaches the result is the
  scale of the minimum-size branch: it needs a starting box of width 0 or height 0,
  which only the fallback for an image of width 0 or height 0 produces (a subject box has
  both dimensions at least 1); the fields of the JavaScript result are then \<open>NaN\<close>, and
  the model returns \<open>Inl NotANumber\<close>. The function never returns \<open>null\<close>.
\<close>

datatype js_anomaly = NotANumber

definition findOptimalCropBounds ::
  "nat list \<Rightarrow> nat \<Rightarrow> nat \<Rightarrow> AutoCropOptions \<Rightarrow> js_anomaly + real CropBounds" where
  "findOptimalCropBounds segmentation width height options =
     (let padding = (case paddingPercentage options of None \<Rightarrow> 0.15 | Some p \<Rightarrow> p);
          minSize = (case minCropSize options of None \<Rightarrow> 100 | Some m \<Rightarrow> m);
          bounds = (case findSubjectBounds segmentation width height of
                      None \<Rightarrow> fallbackBounds width height
                    | Some b \<Rightarrow> b);
          tooSmall = (cb_width bounds < minSize \<or> cb_height bounds < minSize)
      in if tooSmall \<and> (cb_width bounds = 0 \<or> cb_height bounds = 0) then Inl NotANumber
         else
           (let sized = (if tooSmall then enforceMinCropSize bounds minSize else bounds);
                padded = applyCropPadding sized (real width) (real height) padding
            in Inr (if aspect_extreme (cb_width padded) (cb_height padded)
                    then squareBounds padded else padded)))"

text \<open>
  \<open>cropImageData\<close> and the platform operations it calls. A read of a typed array
  outside its range gives \<open>undefined\<close>, and storing \<open>undefined\<close> in a
  \<open>Uint8ClampedArray\<close> stores 0; a store outside the range does nothing.
\<close>

datatype dom_error = RangeError | InvalidStateError | IndexSizeError









subsection \<open>Vocabulary of the cropping properties\<close>

text \<open>The pixel at row \<open>fst p\<close>, column \<open>snd p\<close> carries the subject label.\<close>

definition foreground :: "nat list \<Rightarrow> nat \<Rightarrow> nat \<times> nat \<Rightarrow> bool" where
  "foreground d width p = (seg_at d (fst p * width + snd p) = Some 1)"

text \<open>
  The foreground of the mask of a \<open>w\<close> x \<open>h\<close> image is exactly the rectangle with
  corner \<open>(x0, y0)\<close>, width \<open>w0\<close> and height \<open>h0\<close>.
\<close>

definition rect_mask :: "nat list \<Rightarrow> nat \<Rightarrow> nat \<Rightarrow> nat \<Rightarrow> nat \<Rightarrow> nat \<Rightarrow> nat \<Rightarrow> bool" where
  "rect_mask d w h x0 y0 w0 h0 \<longleftrightarrow>
     (\<forall>y \<in> set [0..<h]. \<forall>x \<in> set [0..<w].
        (seg_at d (y * w + x) = Some 1) = (x0 \<le> x \<and> x < x0 + w0 \<and> y0 \<le> y \<and> y < y0 + h0))"

text \<open>The mask of a \<open>w\<close> x \<open>h\<close> image has no foreground pixel.\<close>

definition no_subject :: "nat list \<Rightarrow> nat \<Rightarrow> nat \<Rightarrow> bool" where
  "no_subject d w h \<longleftrightarrow>
     (\<forall>y \<in> set [0..<h]. \<forall>x \<in> set [0..<w]. seg_at d (y * w + x) \<noteq> Some 1)"


text \<open>The invariant of a rectangle in the specification's data model.\<close>

definition is_integer :: "real \<Rightarrow> bool" where
  "is_integer v \<longleftrightarrow> real_of_int \<lfloor>v\<rfloor> = v"

definition rectangle_invariant :: "nat \<Rightarrow> nat \<Rightarrow> real CropBounds \<Rightarrow> bool" where
  "rectangle_invariant imageWidth imageHeight b \<longleftrightarrow>
     0 \<le> cb_x b \<and> 0 \<le> cb_y b \<and>
     cb_x b + cb_width b \<le> real imageWidth \<and> cb_y b + cb_height b \<le> real imageHeight \<and>
     is_integer (cb_x b) \<and> is_integer (cb_y b) \<and>
     is_integer (cb_width b) \<and> is_integer (cb_height b)"

text \<open>The options left out, so that the defaults 0.15 and 100 apply.\<close>

definition default_options :: AutoCropOptions where
  "default_options = \<lparr> paddingPercentage = None, minCropSize = None \<rparr>"

text \<open>A 4x3 mask whose foreground is the 2x1 rectangle at (1,1).\<close>

definition small_mask :: "nat list" where
  "small_mask = [0, 0, 0, 0,  0, 1, 1, 0,  0, 0, 0, 0]"




section \<open>Convolution sharpening (sharpenImage and its helpers)\<close>

text \<open>
  A JavaScript number that may be \<open>NaN\<close>: \<open>None\<close> is \<open>NaN\<close>. It arises here only from
  reading a typed array outside its range (\<open>undefined\<close>) and from \<open>0 / 0\<close>.
\<close>

type_synonym js_number = "real option"

definition sample :: "byte list \<Rightarrow> nat \<Rightarrow> js_number" where
  "sample arr i = (if i < length arr then Some (byte_val (arr ! i)) else None)"

text \<open>
  Storing a number in a \<open>Uint8ClampedArray\<close>: \<open>NaN\<close> becomes 0, the value is clamped to
  0..255 and rounded to the nearest integer, a tie going to the even one. A store outside
  the range of the array does nothing, as \<open>list_update\<close> does.
\<close>

definition to_uint8_clamp :: "real \<Rightarrow> byte" where
  "to_uint8_clamp v =
     (if v \<le> 0 then 0
      else if v \<ge> 255 then 255
      else (let f = \<lfloor>v\<rfloor>
            in if real_of_int f + 1 / 2 < v then word_of_int (f + 1)
               else if v < real_of_int f + 1 / 2 then word_of_int f
               else if even f then word_of_int f else word_of_int (f + 1)))"

definition put :: "byte list \<Rightarrow> nat \<Rightarrow> js_number \<Rightarrow> byte list" where
  "put arr i v = arr[i := (case v of None \<Rightarrow> 0 | Some r \<Rightarrow> to_uint8_clamp r)]"

text \<open>\<open>dst[j] = src[i]\<close> between two byte arrays.\<close>

definition copy_byte :: "byte list \<Rightarrow> nat \<Rightarrow> byte list \<Rightarrow> nat \<Rightarrow> byte list" where
  "copy_byte src i dst j = dst[j := (if i < length src then src ! i else 0)]"

text \<open>\<open>Math.max(0, Math.min(255, v))\<close>.\<close>

definition clamp255 :: "js_number \<Rightarrow> js_number" where
  "clamp255 v = map_option (\<lambda>r. max 0 (min 255 r)) v"

text \<open>
  The two loops \<open>for (y = 1; y < height - 1; y++) for (x = 1; x < width - 1; x++)\<close>
  that all sharpening passes share, around a loop body.
\<close>

definition for_interior :: "nat \<Rightarrow> nat \<Rightarrow> (nat \<Rightarrow> nat \<Rightarrow> 'a \<Rightarrow> 'a) \<Rightarrow> 'a \<Rightarrow> 'a" where
  "for_interior width height body s =
     fold (\<lambda>y. fold (\<lambda>x. body y x) [1..<width - 1]) [1..<height - 1] s"

text \<open>
  The nine indices \<open>((y + ky) * width + (x + kx)) * 4 + c\<close> for \<open>ky\<close>, \<open>kx\<close> from -1
  to 1, in the order in which the kernel index \<open>ki\<close> counts them. The offsets are
  shifted by one to stay in the naturals: the loops start at 1.
\<close>

definition neighbourhood :: "nat \<Rightarrow> nat \<Rightarrow> nat \<Rightarrow> nat \<Rightarrow> nat list" where
  "neighbourhood width y x c =
     concat (map (\<lambda>ky. map (\<lambda>kx. ((y + ky - 1) * width + (x + kx - 1)) * 4 + c) [0, 1, 2])
                 [0, 1, 2])"

text \<open>The sum of the samples at the given indices, each times its kernel entry.\<close>

definition weighted_sum :: "byte list \<Rightarrow> nat list \<Rightarrow> real list \<Rightarrow> js_number" where
  "weighted_sum original idxs weights =
     (if list_all (\<lambda>i. i < length original) idxs
      then Some (\<Sum>(i, k) \<leftarrow> zip idxs weights. byte_val (original ! i) * k)
      else None)"

definition gaussianKernel :: "real list" where
  "gaussianKernel = [1, 2, 1, 2, 4, 2, 1, 2, 1]"

definition laplacianKernel :: "real list" where
  "laplacianKernel = [0, - 1, 0, - 1, 5, - 1, 0, - 1, 0]"

definition sobelX :: "real list" where
  "sobelX = [- 1, 0, 1, - 2, 0, 2, - 1, 0, 1]"

definition sobelY :: "real list" where
  "sobelY = [- 1, - 2, - 1, 0, 0, 0, 1, 2, 1]"

text \<open>The first pass of \<open>applyUnsharpMask\<close>: the blurred copy, interior pixels only.\<close>

definition blur_pixel :: "byte list \<Rightarrow> nat \<Rightarrow> nat \<Rightarrow> nat \<Rightarrow> byte list \<Rightarrow> byte list" where
  "blur_pixel original width y x blurred =
     fold (\<lambda>c b. put b ((y * width + x) * 4 + c)
                    (map_option (\<lambda>s. s / 16)
                       (weighted_sum original (neighbourhood width y x c) gaussianKernel)))
          [0..<3] blurred"

definition unsharp_value :: "byte list \<Rightarrow> byte list \<Rightarrow> real \<Rightarrow> nat \<Rightarrow> js_number" where
  "unsharp_value original blurred intensity index =
     (case (sample original index, sample blurred index) of
        (Some originalValue, Some blurredValue) \<Rightarrow>
          clamp255 (Some (originalValue + (originalValue - blurredValue) * intensity))
      | _ \<Rightarrow> None)"

definition unsharp_pixel ::
  "byte list \<Rightarrow> byte list \<Rightarrow> nat \<Rightarrow> real \<Rightarrow> nat \<Rightarrow> nat \<Rightarrow> byte list \<Rightarrow> byte list" where
  "unsharp_pixel original blurred width intensity y x result =
     (let r = fold (\<lambda>c r. put r ((y * width + x) * 4 + c)
                             (unsharp_value original blurred intensity ((y * width + x) * 4 + c)))
                   [0..<3] result;
          alphaIndex = (y * width + x) * 4 + 3
      in copy_byte original alphaIndex r alphaIndex)"

definition applyUnsharpMask :: "byte list \<Rightarrow> byte list \<Rightarrow> nat \<Rightarrow> nat \<Rightarrow> real \<Rightarrow> byte list" where
  "applyUnsharpMask original result width height intensity =
     (let blurred = for_interior width height (blur_pixel original width)
                      (replicate (length original) 0)
      in for_interior width height (unsharp_pixel original blurred width intensity) result)"

definition laplacian_value :: "byte list \<Rightarrow> nat \<Rightarrow> real \<Rightarrow> nat \<Rightarrow> nat \<Rightarrow> nat \<Rightarrow> js_number" where
  "laplacian_value original width intensity y x c =
     (case (weighted_sum original (neighbourhood width y x c) laplacianKernel,
            sample original ((y * width + x) * 4 + c)) of
        (Some s, Some cur) \<Rightarrow> clamp255 (Some (cur + (s - cur) * intensity * 0.3))
      | _ \<Rightarrow> None)"

definition laplacian_pixel ::
  "byte list \<Rightarrow> nat \<Rightarrow> real \<Rightarrow> nat \<Rightarrow> nat \<Rightarrow> byte list \<Rightarrow> byte list" where
  "laplacian_pixel original width intensity y x result =
     (let r = fold (\<lambda>c r. put r ((y * width + x) * 4 + c)
                             (laplacian_value original width intensity y x c))
                   [0..<3] result;
          alphaIndex = (y * width + x) * 4 + 3
      in copy_byte original alphaIndex r alphaIndex)"

definition applyLaplacianSharpening ::
  "byte list \<Rightarrow> byte list \<Rightarrow> nat \<Rightarrow> nat \<Rightarrow> real \<Rightarrow> byte list" where
  "applyLaplacianSharpening original result width height intensity =
     for_interior width height (laplacian_pixel original width intensity) result"

definition edge_value :: "byte list \<Rightarrow> nat \<Rightarrow> real \<Rightarrow> nat \<Rightarrow> nat \<Rightarrow> nat \<Rightarrow> js_number" where
  "edge_value original width intensity y x c =
     (case (weighted_sum original (neighbourhood width y x c) sobelX,
            weighted_sum original (neighbourhood width y x c) sobelY,
            sample original ((y * width + x) * 4 + c)) of
        (Some gradientX, Some gradientY, Some cur) \<Rightarrow>
          clamp255 (Some (cur + sqrt (gradientX * gradientX + gradientY * gradientY)
                                  * intensity * 0.2))
      | _ \<Rightarrow> None)"

definition edge_pixel ::
  "byte list \<Rightarrow> nat \<Rightarrow> real \<Rightarrow> nat \<Rightarrow> nat \<Rightarrow> byte list \<Rightarrow> byte list" where
  "edge_pixel original width intensity y x result =
     (let r = fold (\<lambda>c r. put r ((y * width + x) * 4 + c)
                             (edge_value original width intensity y x c))
                   [0..<3] result;
          alphaIndex = (y * width + x) * 4 + 3
      in copy_byte original alphaIndex r alphaIndex)"

definition applyEdgeEnhancement ::
  "byte list \<Rightarrow> byte list \<Rightarrow> nat \<Rightarrow> nat \<Rightarrow> real \<Rightarrow> byte list" where
  "applyEdgeEnhancement original result width height intensity =
     for_interior width height (edge_pixel original width intensity) result"

datatype SharpeningMethod = Unsharp | Laplacian | EdgeEnhance

record SharpeningOptions =
  intensity :: "real option"
  sharpen_method :: "SharpeningMethod option"

text \<open>
  \<open>new ImageData(width, height)\<close>: a zero-filled buffer; the platform raises
  IndexSizeError when a dimension is 0.
\<close>

definition blank_ImageData :: "nat \<Rightarrow> nat \<Rightarrow> dom_error + ImageData" where
  "blank_ImageData w h =
     (if w = 0 \<or> h = 0 then Inl IndexSizeError
      else Inr \<lparr> img_data = replicate (w * h * 4) 0, img_width = w, img_height = h \<rparr>)"

text \<open>
  \<open>sharpenImage\<close>: the copy of the whole buffer, then the pass of the chosen method
  (\<open>'unsharp'\<close> when the option is absent). Only the image of the result is modelled, not
  the elapsed time.
\<close>

definition sharpenImage :: "ImageData \<Rightarrow> SharpeningOptions \<Rightarrow> dom_error + ImageData" where
  "sharpenImage imageData options =
     (let strength = (case intensity options of None \<Rightarrow> 1.5 | Some v \<Rightarrow> v);
          method = (case sharpen_method options of None \<Rightarrow> Unsharp | Some m \<Rightarrow> m);
          d = img_data imageData; width = img_width imageData; height = img_height imageData
      in case blank_ImageData width height of
           Inl e \<Rightarrow> Inl e
         | Inr result \<Rightarrow>
             (let newData = fold (\<lambda>i nd. copy_byte d i nd i) [0..<length d] (img_data result);
                  sharpened =
                    (case method of
                       Unsharp \<Rightarrow> applyUnsharpMask d newData width height strength
                     | Laplacian \<Rightarrow> applyLaplacianSharpening d newData width height strength
                     | EdgeEnhance \<Rightarrow> applyEdgeEnhancement d newData width height strength)
              in Inr (result\<lparr> img_data := sharpened \<rparr>)))"

text \<open>
  \<open>analyzeImageSharpness\<close>. The loop body computes \<open>gray\<close> from the three channels of
  the pixel and does not use it: both Sobel gradients are sums of the samples
  \<open>data[(...) * 4]\<close>, the red channel of the neighbours. A pixel whose alpha is below 128
  is skipped. The state is the pair of \<open>edgeStrength\<close> and \<open>pixelCount\<close>.
\<close>

definition sharpness_pixel ::
  "byte list \<Rightarrow> nat \<Rightarrow> nat \<Rightarrow> nat \<Rightarrow> js_number \<times> nat \<Rightarrow> js_number \<times> nat" where
  "sharpness_pixel d width y x st =
     (let idx = (y * width + x) * 4
      in if (case sample d (idx + 3) of Some alpha \<Rightarrow> alpha < 128 | None \<Rightarrow> False) then st
         else
           (let gray = (case (sample d idx, sample d (idx + 1), sample d (idx + 2)) of
                          (Some r, Some g, Some b) \<Rightarrow> Some (0.299 * r + 0.587 * g + 0.114 * b)
                        | _ \<Rightarrow> None);
                gx = weighted_sum d (neighbourhood width y x 0) sobelX;
                gy = weighted_sum d (neighbourhood width y x 0) sobelY;
                magnitude = (case (gx, gy) of
                               (Some a, Some b) \<Rightarrow> Some (sqrt (a * a + b * b))
                             | _ \<Rightarrow> None)
            in (case (fst st, magnitude) of
                  (Some e, Some m) \<Rightarrow> Some (e + m)
                | _ \<Rightarrow> None,
                snd st + 1)))"

text \<open>
  The average divides by \<open>pixelCount\<close>: with no counted pixel it is \<open>0 / 0 = NaN\<close>, and
  \<open>Math.max\<close> and \<open>Math.min\<close> of \<open>NaN\<close> are \<open>NaN\<close>.
\<close>

definition analyzeImageSharpness :: "ImageData \<Rightarrow> js_number" where
  "analyzeImageSharpness imageData =
     (let st = for_interior (img_width imageData) (img_height imageData)
                 (sharpness_pixel (img_data imageData) (img_width imageData)) (Some 0, 0)
      in case fst st of
           None \<Rightarrow> None
         | Some edgeStrength \<Rightarrow>
             if snd st = 0 then None
             else Some (min 100 (max 0 (edgeStrength / real (snd st) / 3))))"

text \<open>
  The score as the specification words it: the same loop, with the Sobel gradients taken
  over the grayscale values \<open>0.299 R + 0.587 G + 0.114 B\<close> of the neighbours.
\<close>

definition gray_at :: "byte list \<Rightarrow> nat \<Rightarrow> real" where
  "gray_at d i = 0.299 * byte_val (d ! i) + 0.587 * byte_val (d ! (i + 1))
                   + 0.114 * byte_val (d ! (i + 2))"

definition spec_sharpness_pixel ::
  "byte list \<Rightarrow> nat \<Rightarrow> nat \<Rightarrow> nat \<Rightarrow> real \<times> nat \<Rightarrow> real \<times> nat" where
  "spec_sharpness_pixel d width y x st =
     (if byte_val (d ! ((y * width + x) * 4 + 3)) < 128 then st
      else
        (let gx = (\<Sum>(i, k) \<leftarrow> zip (neighbourhood width y x 0) sobelX. gray_at d i * k);
             gy = (\<Sum>(i, k) \<leftarrow> zip (neighbourhood width y x 0) sobelY. gray_at d i * k)
         in (fst st + sqrt (gx * gx + gy * gy), snd st + 1)))"

definition spec_sharpness :: "ImageData \<Rightarrow> real" where
  "spec_sharpness imageData =
     (let st = for_interior (img_width imageData) (img_height imageData)
                 (spec_sharpness_pixel (img_data imageData) (img_width imageData)) (0, 0)
      in min 100 (max 0 (fst st / real (snd st) / 3)))"

text \<open>
  A 3x3 opaque image whose red and blue channels are 0 everywhere and whose green channel
  is 255 in the right column only: a vertical edge that the red channel does not show.
\<close>

definition green_edge :: ImageData where
  "green_edge =
     \<lparr> img_data = [0, 0, 0, 255,  0, 0, 0, 255,  0, 255, 0, 255,
                   0, 0, 0, 255,  0, 0, 0, 255,  0, 255, 0, 255,
                   0, 0, 0, 255,  0, 0, 0, 255,  0, 255, 0, 255],
       img_width = 3, img_height = 3 \<rparr>"

subsection \<open>Vocabulary of the sharpening properties\<close>

text \<open>
  The writes that each of the three loop bodies makes for one pixel: the three colour
  samples at \<open>base + c\<close>, then the alpha sample copied from the original.
\<close>

definition write_pixel :: "byte list \<Rightarrow> nat \<Rightarrow> (nat \<Rightarrow> js_number) \<Rightarrow> byte list \<Rightarrow> byte list" where
  "write_pixel original base v r =
     copy_byte original (base + 3) (fold (\<lambda>c r. put r (base + c) (v c)) [0..<3] r) (base + 3)"

text \<open>The pixel in column \<open>x\<close> and row \<open>y\<close> lies on the one-pixel border of the image.\<close>

definition on_border :: "nat \<Rightarrow> nat \<Rightarrow> nat \<Rightarrow> nat \<Rightarrow> bool" where
  "on_border w h x y \<longleftrightarrow> x < w \<and> y < h \<and> (x = 0 \<or> x = w - 1 \<or> y = 0 \<or> y = h - 1)"

text \<open>The array \<open>r\<close> has the length of the original and the same sample at index \<open>i\<close>.\<close>

definition kept :: "byte list \<Rightarrow> nat \<Rightarrow> byte list \<Rightarrow> bool" where
  "kept original i r \<longleftrightarrow> length r = length original \<and> r ! i = original ! i"

text \<open>The image that \<open>sharpenImage\<close> returns for a well-formed input.\<close>

definition sharpened_data :: "ImageData \<Rightarrow> SharpeningOptions \<Rightarrow> byte list" where
  "sharpened_data img options =
     (let k = (case intensity options of None \<Rightarrow> 1.5 | Some v \<Rightarrow> v);
          d = img_data img; w = img_width img; h = img_height img
      in case sharpen_method options of
           None \<Rightarrow> applyUnsharpMask d d w h k
         | Some Unsharp \<Rightarrow> applyUnsharpMask d d w h k
         | Some Laplacian \<Rightarrow> applyLaplacianSharpening d d w h k
         | Some EdgeEnhance \<Rightarrow> applyEdgeEnhancement d d w h k)"

section \<open>Palette extraction (src/services/colorAnalysis.ts)\<close>

record ColorRGB =
  rgb_r :: real
  rgb_g :: real
  rgb_b :: real

text \<open>
  \<open>rgbToHsl\<close>: hue in degrees, saturation and lightness in percent. The \<open>switch (max)\<close>
  takes the first of the cases \<open>r\<close>, \<open>g\<close>, \<open>b\<close> that equals the maximum. Neither divisor
  is 0 when the maximum and the minimum differ and the channels lie in 0..255.
\<close>

definition rgbToHsl :: "real \<Rightarrow> real \<Rightarrow> real \<Rightarrow> real \<times> real \<times> real" where
  "rgbToHsl r0 g0 b0 =
     (let r = r0 / 255; g = g0 / 255; b = b0 / 255;
          mx = max r (max g b); mn = min r (min g b);
          l = (mx + mn) / 2
      in if mx = mn then (0, 0, l * 100)
         else
           (let d = mx - mn;
                s = (if l > 0.5 then d / (2 - mx - mn) else d / (mx + mn));
                h = (if mx = r then (g - b) / d + (if g < b then 6 else 0)
                     else if mx = g then (b - r) / d + 2
                     else (r - g) / d + 4)
            in (h / 6 * 360, s * 100, l * 100)))"

definition lightness :: "real \<Rightarrow> real \<Rightarrow> real \<Rightarrow> real" where
  "lightness r g b = snd (snd (rgbToHsl r g b))"

text \<open>
  The body of the loop of \<open>samplePixels\<close> at index \<open>i\<close>: a pixel with alpha below 128 is
  skipped, so is one whose lightness is below 5 or above 95; any other is pushed. The
  index is a multiple of four below the length of the data of an \<open>ImageData\<close>, so the
  four reads are in range; the last case is outside that model.
\<close>

definition visit_sample :: "byte list \<Rightarrow> nat \<Rightarrow> ColorRGB list \<Rightarrow> ColorRGB list" where
  "visit_sample d i samples =
     (case (sample d i, sample d (i + 1), sample d (i + 2), sample d (i + 3)) of
        (Some r, Some g, Some b, Some alpha) \<Rightarrow>
          if alpha < 128 then samples
          else if lightness r g b < 5 \<or> lightness r g b > 95 then samples
          else samples @ [\<lparr> rgb_r = r, rgb_g = g, rgb_b = b \<rparr>]
      | _ \<Rightarrow> samples)"

text \<open>
  The loop \<open>for (i = 0; i < data.length; i += samplingInterval * 4)\<close> with
  \<open>samplingInterval = Math.max(1, q)\<close>, where \<open>q\<close> is the floor of
  \<open>totalPixels / maxSamples\<close>.
\<close>

function sample_loop :: "byte list \<Rightarrow> nat \<Rightarrow> nat \<Rightarrow> ColorRGB list \<Rightarrow> ColorRGB list" where
  "sample_loop d q i samples =
     (if i < length d then sample_loop d q (i + max 1 q * 4) (visit_sample d i samples)
      else samples)"
  by pat_completeness auto
termination
  by (relation "measure (\<lambda>(d, q, i, samples). length d - i)") auto

declare sample_loop.simps [simp del]

text \<open>
  \<open>samplePixels\<close>, for a natural number \<open>maxSamples\<close>. With \<open>maxSamples = 0\<close> the
  interval is infinite (or \<open>NaN\<close> for an image without pixels): the loop body runs for
  \<open>i = 0\<close> and the loop ends.
\<close>

definition samplePixels :: "ImageData \<Rightarrow> nat \<Rightarrow> ColorRGB list" where
  "samplePixels imageData maxSamples =
     (let d = img_data imageData;
          totalPixels = img_width imageData * img_height imageData
      in if maxSamples = 0
         then (if 0 < length d then visit_sample d 0 [] else [])
         else sample_loop d (totalPixels div maxSamples) 0 [])"

text \<open>
  \<open>extractColorPalette\<close> up to its clustering stage. The guard on the number of samples
  is the only \<open>throw\<close> of the function. The stage after it (\<open>initializeCentroids\<close>, the
  K-means iteration, \<open>sortColorsByVibrancy\<close>) draws from \<open>Math.random\<close>; it is the
  parameter \<open>cluster\<close>, which receives the samples, \<open>k\<close> and \<open>maxIterations\<close>, so that
  what is proved holds whatever that stage returns.
\<close>

datatype palette_error = NotEnoughValidPixels nat nat

definition extractColorPalette ::
  "(ColorRGB list \<Rightarrow> nat \<Rightarrow> nat \<Rightarrow> 'p) \<Rightarrow> ImageData \<Rightarrow> nat \<Rightarrow> nat \<Rightarrow> nat \<Rightarrow> palette_error + 'p" where
  "extractColorPalette cluster imageData k maxIterations maxSamples =
     (let pixels = samplePixels imageData maxSamples
      in if length pixels < k then Inl (NotEnoughValidPixels (length pixels) k)
         else Inr (cluster pixels k maxIterations))"

subsection \<open>The working set in the words of the specification\<close>

text \<open>
  The pixels taken at stride \<open>max(1, floor(totalPixels / maxSamples))\<close>, without those
  whose alpha is below 128 and those whose lightness is below 5 or above 95. Pixel \<open>j\<close>
  occupies the bytes \<open>4 j\<close> to \<open>4 j + 3\<close>. With \<open>maxSamples = 0\<close> the stride is infinite
  and only pixel 0 is taken.
\<close>

definition taken :: "nat \<Rightarrow> nat \<Rightarrow> nat \<Rightarrow> bool" where
  "taken totalPixels maxSamples j =
     (if maxSamples = 0 then j = 0 else j mod max 1 (totalPixels div maxSamples) = 0)"

definition valid_sample :: "byte list \<Rightarrow> nat \<Rightarrow> bool" where
  "valid_sample d j \<longleftrightarrow>
     \<not> byte_val (d ! (j * 4 + 3)) < 128 \<and>
     \<not> (lightness (byte_val (d ! (j * 4))) (byte_val (d ! (j * 4 + 1))) (byte_val (d ! (j * 4 + 2))) < 5
        \<or> lightness (byte_val (d ! (j * 4))) (byte_val (d ! (j * 4 + 1))) (byte_val (d ! (j * 4 + 2))) > 95)"

definition color_at :: "byte list \<Rightarrow> nat \<Rightarrow> ColorRGB" where
  "color_at d j = \<lparr> rgb_r = byte_val (d ! (j * 4)), rgb_g = byte_val (d ! (j * 4 + 1)),
                    rgb_b = byte_val (d ! (j * 4 + 2)) \<rparr>"

definition working_set :: "ImageData \<Rightarrow> nat \<Rightarrow> ColorRGB list" where
  "working_set img maxSamples =
     map (color_at (img_data img))
       (filter (\<lambda>j. taken (img_width img * img_height img) maxSamples j
                     \<and> valid_sample (img_data img) j)
               [0..<img_width img * img_height img])"

text \<open>A 2x1 image with one mid-gray opaque pixel and one transparent pixel.\<close>

definition gray_and_clear :: ImageData where
  "gray_and_clear =
     \<lparr> img_data = [128, 128, 128, 255, 0, 0, 0, 0], img_width = 2, img_height = 1 \<rparr>"

section \<open>Properties of the histogram analysis\<close>

lemma hist_loop_totals:
  "totalLuminance (hist_loop d st) =
     totalLuminance st + (\<Sum>(r, g, b) \<leftarrow> opaque_pixels d. real_of_int (pixel_luminance r g b))
   \<and> totalSaturation (hist_loop d st) =
     totalSaturation st + (\<Sum>(r, g, b) \<leftarrow> opaque_pixels d. pixel_saturation r g b)"
  by (induction d st rule: hist_loop.induct) (simp_all add: hist_step_def Let_def)

text \<open>
  What the code computes: the sums run over the pixels with alpha different from 0, but
  they are divided by the number of all pixels.
\<close>

lemma analyze_averages:
  "averageLuminance (analyzeImageHistogram img) =
     (\<Sum>(r, g, b) \<leftarrow> opaque_pixels (img_data img). real_of_int (pixel_luminance r g b))
       / real (img_width img * img_height img)
   \<and> saturationLevel (analyzeImageHistogram img) =
     (\<Sum>(r, g, b) \<leftarrow> opaque_pixels (img_data img). pixel_saturation r g b)
       / real (img_width img * img_height img)"
  by (simp add: analyzeImageHistogram_def Let_def hist_loop_totals initial_hist_state_def)

text \<open>
  Claim C1. The analyzer should exclude pixels with alpha 0 from all statistics, so that
  averageLuminance and saturationLevel are means over the remaining pixels. On the 2x1
  image with one opaque pixel of RGB (200,100,50) and one transparent pixel, those means
  are 124 and 0.75, but the code divides both sums by the number of all pixels and
  returns 62 and 0.375.
\<close>

theorem averageLuminance_counts_transparent:
  "wf_image half_transparent
   \<and> averageLuminance (analyzeImageHistogram half_transparent) = 62
   \<and> spec_averageLuminance half_transparent = 124
   \<and> saturationLevel (analyzeImageHistogram half_transparent) = 0.375
   \<and> spec_saturationLevel half_transparent = 0.75"
  by (simp add: half_transparent_def wf_image_def analyze_averages spec_averageLuminance_def
      spec_saturationLevel_def pixel_luminance_def pixel_saturation_def js_round_def byte_val_def)

subsection \<open>The contrast level\<close>


lemma minScan_le: "minScan h t i c \<le> 255"
  by (induction h t i c rule: minScan.induct) (subst minScan.simps, simp add: Let_def)

lemma maxScan_le: "n \<le> 256 \<Longrightarrow> maxScan h t n c \<le> 255"
  by (induction n arbitrary: c) (simp_all add: Let_def)

lemma sum_list_drop_mono:
  fixes h :: "nat list"
  assumes "a \<le> b"
  shows "sum_list (drop b h) \<le> sum_list (drop a h)"
proof -
  have d: "drop (b - a) (drop a h) = drop b h"
    using assms by simp
  have "drop a h = take (b - a) (drop a h) @ drop (b - a) (drop a h)"
    by (rule append_take_drop_id[symmetric])
  then have "drop a h = take (b - a) (drop a h) @ drop b h"
    unfolding d .
  then have "sum_list (drop a h) = sum_list (take (b - a) (drop a h)) + sum_list (drop b h)"
    by (metis sum_list_append)
  then show ?thesis by simp
qed

lemma sum_list_take_le:
  fixes h :: "nat list"
  shows "sum_list (take a h) \<le> sum_list h"
proof -
  have "sum_list h = sum_list (take a h) + sum_list (drop a h)"
    by (metis append_take_drop_id sum_list_append)
  then show ?thesis by simp
qed

lemma minScan_prefix:
  "i \<le> 256 \<Longrightarrow> length h = 256 \<Longrightarrow> c = real (sum_list (take i h)) \<Longrightarrow> c \<le> t \<Longrightarrow>
   minScan h t i c = 0 \<or>
   (real (sum_list (take (minScan h t i c) h)) \<le> t
    \<and> t < real (sum_list (take (Suc (minScan h t i c)) h)))"
proof (induction h t i c rule: minScan.induct)
  case (1 h t i c)
  show ?case
  proof (cases "i < 256")
    case False
    then show ?thesis by (subst minScan.simps) simp
  next
    case True
    let ?c = "c + real (h ! i)"
    have c': "?c = real (sum_list (take (Suc i) h))"
      using 1(3,4) True by (simp add: take_Suc_conv_app_nth)
    show ?thesis
    proof (cases "?c > t")
      case gt: True
      have "minScan h t i c = i" using True gt by (subst minScan.simps) (simp add: Let_def)
      then show ?thesis using 1(4,5) gt c' by simp
    next
      case le: False
      have eq: "minScan h t i c = minScan h t (i + 1) ?c"
        using True le by (subst minScan.simps) (simp add: Let_def)
      show ?thesis
        using 1(1)[OF True refl _ _ 1(3)] le True c' eq by simp
    qed
  qed
qed

lemma maxScan_suffix:
  "n \<le> 256 \<Longrightarrow> length h = 256 \<Longrightarrow> c = real (sum_list (drop n h)) \<Longrightarrow> c \<le> t \<Longrightarrow>
   maxScan h t n c = 255 \<or> real (sum_list (drop (Suc (maxScan h t n c)) h)) \<le> t"
proof (induction n arbitrary: c)
  case 0
  then show ?case by simp
next
  case (Suc n)
  let ?c = "c + real (h ! n)"
  have dr: "drop n h = h ! n # drop (Suc n) h"
    using Suc.prems by (simp add: Cons_nth_drop_Suc)
  show ?case
  proof (cases "?c > t")
    case True
    then show ?thesis using Suc.prems by (simp add: Let_def)
  next
    case False
    have "?c = real (sum_list (drop n h))" using Suc.prems dr by simp
    then show ?thesis using Suc.IH[of ?c] Suc.prems False by (simp add: Let_def)
  qed
qed

lemma scans_ordered:
  assumes len: "length h = 256"
  shows "minScan h (real (sum_list h) * 0.01) 0 0 \<le> maxScan h (real (sum_list h) * 0.01) 256 0"
proof (rule ccontr)
  let ?t = "real (sum_list h) * 0.01"
  let ?lo = "minScan h ?t 0 0" and ?hi = "maxScan h ?t 256 0"
  assume "\<not> ?lo \<le> ?hi"
  then have lt: "?hi < ?lo" by simp
  have t0: "0 \<le> ?t" by simp
  have lo255: "?lo \<le> 255" by (rule minScan_le)
  have "?lo = 0 \<or> (real (sum_list (take ?lo h)) \<le> ?t \<and> ?t < real (sum_list (take (Suc ?lo) h)))"
    using minScan_prefix[of 0 h 0 ?t] len t0 by simp
  with lt have pre: "real (sum_list (take ?lo h)) \<le> ?t"
    and found: "?t < real (sum_list (take (Suc ?lo) h))" by auto
  have "?hi = 255 \<or> real (sum_list (drop (Suc ?hi) h)) \<le> ?t"
    using maxScan_suffix[of 256 h 0 ?t] len t0 by simp
  with lt lo255 have suf: "real (sum_list (drop (Suc ?hi) h)) \<le> ?t" by auto
  have split: "sum_list h = sum_list (take ?lo h) + sum_list (drop ?lo h)"
    by (metis append_take_drop_id sum_list_append)
  have "sum_list (drop ?lo h) \<le> sum_list (drop (Suc ?hi) h)"
    using lt by (intro sum_list_drop_mono) simp
  then have dl: "real (sum_list (drop ?lo h)) \<le> ?t" using suf by linarith
  have "real (sum_list h) = real (sum_list (take ?lo h)) + real (sum_list (drop ?lo h))"
    using split by (metis of_nat_add)
  then have "real (sum_list h) \<le> 2 * ?t" using pre dl by linarith
  then have z: "real (sum_list h) \<le> 0" by simp
  have "sum_list (take (Suc ?lo) h) \<le> sum_list h"
    by (rule sum_list_take_le)
  then have "real (sum_list (take (Suc ?lo) h)) \<le> real (sum_list h)"
    by (rule iffD2[OF of_nat_le_iff])
  then show False using found z t0 by linarith
qed

lemma hist_loop_length:
  "length (luminance (histogram (hist_loop d st))) = length (luminance (histogram st))"
  by (induction d st rule: hist_loop.induct) (simp_all add: hist_step_def Let_def incr_def)

text \<open>
  Claim C10. For every input buffer, also one without any opaque pixel, the contrast
  level returned by the analyzer lies between 0 and 1: the bin found by the upward scan
  is never above the bin found by the downward scan.
\<close>

theorem contrastLevel_range:
  "0 \<le> contrastLevel (analyzeImageHistogram img) \<and> contrastLevel (analyzeImageHistogram img) \<le> 1"
proof -
  let ?h = "luminance (histogram (hist_loop (img_data img) initial_hist_state))"
  let ?t = "real (sum_list ?h) * 0.01"
  have len: "length ?h = 256"
    by (simp add: hist_loop_length initial_hist_state_def)
  have ord: "minScan ?h ?t 0 0 \<le> maxScan ?h ?t 256 0"
    using scans_ordered[OF len] .
  have hi: "maxScan ?h ?t 256 0 \<le> 255" by (rule maxScan_le) simp
  have lvl: "contrastLevel (analyzeImageHistogram img)
      = (real (maxScan ?h ?t 256 0) - real (minScan ?h ?t 0 0)) / 255"
    by (simp add: analyzeImageHistogram_def calculateContrastLevel_def Let_def)
  show ?thesis unfolding lvl using ord hi by simp
qed

section \<open>Properties of the cropper\<close>

subsection \<open>The bounding box of the subject\<close>

lemma fold_preserves:
  assumes "\<And>p s. p \<in> set ps \<Longrightarrow> I s \<Longrightarrow> I (f p s)" and "I s"
  shows "I (fold f ps s)"
  using assms by (induction ps arbitrary: s) auto

lemma pixel_index_unique:
  fixes w :: nat
  assumes "x < w" "x' < w" "y * w + x = y' * w + x'"
  shows "y = y' \<and> x = x'"
proof -
  have "(y * w + x) div w = (y' * w + x') div w" "(y * w + x) mod w = (y' * w + x') mod w"
    using assms(3) by simp_all
  then show ?thesis using assms(1,2) by simp
qed

lemma nested_fold:
  "fold (\<lambda>y. fold (f y) xs) ys s = fold (\<lambda>(y, x). f y x) (List.product ys xs) s"
proof (induction ys arbitrary: s)
  case Nil
  show ?case by simp
next
  case (Cons y ys)
  have "fold (\<lambda>(y, x). f y x) (map (Pair y) xs) s = fold (f y) xs s"
    by (simp add: fold_map comp_def)
  then show ?case using Cons.IH by simp
qed

lemma scan_fold:
  "subjectPixelCount (fold (\<lambda>(y, x). scan_pixel d w y x) ps st)
     = subjectPixelCount st + length (filter (foreground d w) ps)
   \<and> minX (fold (\<lambda>(y, x). scan_pixel d w y x) ps st)
     = fold min (map snd (filter (foreground d w) ps)) (minX st)
   \<and> maxX (fold (\<lambda>(y, x). scan_pixel d w y x) ps st)
     = fold max (map snd (filter (foreground d w) ps)) (maxX st)
   \<and> minY (fold (\<lambda>(y, x). scan_pixel d w y x) ps st)
     = fold min (map fst (filter (foreground d w) ps)) (minY st)
   \<and> maxY (fold (\<lambda>(y, x). scan_pixel d w y x) ps st)
     = fold max (map fst (filter (foreground d w) ps)) (maxY st)"
proof (induction ps arbitrary: st)
  case Nil
  show ?case by simp
next
  case (Cons p ps)
  obtain y x where p: "p = (y, x)" by (cases p)
  show ?case
  proof (cases "foreground d w (y, x)")
    case True
    then have s: "scan_pixel d w y x st =
        \<lparr> minX = min (minX st) x, maxX = max (maxX st) x,
          minY = min (minY st) y, maxY = max (maxY st) y,
          subjectPixelCount = subjectPixelCount st + 1 \<rparr>"
      by (simp add: scan_pixel_def foreground_def)
    show ?thesis
      unfolding p using Cons.IH[of "scan_pixel d w y x st"] True
      by (simp add: s min.commute max.commute)
  next
    case False
    then have s: "scan_pixel d w y x st = st"
      by (simp add: scan_pixel_def foreground_def)
    show ?thesis
      unfolding p using Cons.IH[of st] False
      by (simp add: s)
  qed
qed

lemma fold_min_Min: "fold min xs (a::nat) = Min (insert a (set xs))"
  using Min.set_eq_fold[of a xs] by simp

lemma fold_max_Max: "fold max xs (a::nat) = Max (insert a (set xs))"
  using Max.set_eq_fold[of a xs] by simp


lemma product_upt_set: "set (List.product [0..<h] [0..<w]) = {0..<h} \<times> {0..<w}"
  by simp

lemma findSubjectBounds_None:
  assumes "\<forall>y<h. \<forall>x<w. seg_at d (y * w + x) \<noteq> Some 1"
  shows "findSubjectBounds d w h = None"
proof -
  have "filter (foreground d w) (List.product [0..<h] [0..<w]) = []"
    using assms by (auto simp: filter_empty_conv foreground_def)
  then show ?thesis
    by (simp add: findSubjectBounds_def nested_fold scan_fold Let_def)
qed

lemma findSubjectBounds_rect:
  assumes m: "rect_mask d w h x0 y0 w0 h0"
    and pos: "0 < w0" "0 < h0" and inside: "x0 + w0 \<le> w" "y0 + h0 \<le> h"
  shows "findSubjectBounds d w h =
     Some \<lparr> cb_x = real x0, cb_y = real y0, cb_width = real w0, cb_height = real h0 \<rparr>"
proof -
  let ?ps = "List.product [0..<h] [0..<w]"
  let ?fg = "filter (foreground d w) ?ps"
  have fg: "set ?fg = {y0..<y0 + h0} \<times> {x0..<x0 + w0}"
    using m inside by (auto simp: rect_mask_def foreground_def)
  have xs: "set (map snd ?fg) = {x0..<x0 + w0}"
    unfolding set_map fg using pos by force
  have ys: "set (map fst ?fg) = {y0..<y0 + h0}"
    unfolding set_map fg using pos by force
  have "(y0, x0) \<in> set ?fg" unfolding fg using pos by simp
  then have ne: "?fg \<noteq> []" by (metis empty_iff empty_set)
  have minx: "fold min (map snd ?fg) w = x0"
    unfolding fold_min_Min xs using pos inside by (intro Min_eqI) auto
  have maxx: "fold max (map snd ?fg) 0 = x0 + w0 - 1"
    unfolding fold_max_Max xs using pos inside by (intro Max_eqI) auto
  have miny: "fold min (map fst ?fg) h = y0"
    unfolding fold_min_Min ys using pos inside by (intro Min_eqI) auto
  have maxy: "fold max (map fst ?fg) 0 = y0 + h0 - 1"
    unfolding fold_max_Max ys using pos inside by (intro Max_eqI) auto
  have r: "real (x0 + w0 - 1) - real x0 + 1 = real w0" "real (y0 + h0 - 1) - real y0 + 1 = real h0"
    using pos by (simp_all add: of_nat_diff)
  show ?thesis
    using ne r by (simp add: findSubjectBounds_def nested_fold scan_fold Let_def minx maxx miny maxy)
qed


lemma js_round_zero: "js_round 0 = 0"
  by (simp add: js_round_def)

lemma applyCropPadding_zero:
  assumes "cb_x b + cb_width b \<le> iw" "cb_y b + cb_height b \<le> ih" "0 \<le> cb_x b" "0 \<le> cb_y b"
    and "js_round (cb_width b * p) = 0" "js_round (cb_height b * p) = 0"
  shows "applyCropPadding b iw ih p = b"
  using assms by (simp add: applyCropPadding_def Let_def)

text \<open>
  Claim C7. When the foreground of the mask is exactly one rectangle at (x0, y0) of
  width w0 and height h0 inside the image, and w0 / h0 is neither above 3 nor below
  0.33, the crop computation with paddingPercentage 0 and minCropSize 1 returns exactly
  that rectangle.
\<close>

theorem crop_exact_rectangle:
  assumes "rect_mask d w h x0 y0 w0 h0"
    and "0 < w0" "0 < h0" "x0 + w0 \<le> w" "y0 + h0 \<le> h"
    and "\<not> real w0 / real h0 > 3" "\<not> real w0 / real h0 < 0.33"
  shows "findOptimalCropBounds d w h \<lparr> paddingPercentage = Some 0, minCropSize = Some 1 \<rparr>
     = Inr \<lparr> cb_x = real x0, cb_y = real y0, cb_width = real w0, cb_height = real h0 \<rparr>"
proof -
  let ?b = "\<lparr> cb_x = real x0, cb_y = real y0, cb_width = real w0, cb_height = real h0 \<rparr>"
  have sb: "findSubjectBounds d w h = Some ?b"
    using assms(1-5) by (rule findSubjectBounds_rect)
  have pad: "applyCropPadding ?b (real w) (real h) 0 = ?b"
    using assms(4,5)
    by (intro applyCropPadding_zero) (simp_all add: js_round_zero flip: of_nat_add)
  have asp: "\<not> aspect_extreme (real w0) (real h0)"
    using assms(3,6,7) by (simp add: aspect_extreme_def)
  show ?thesis
    using assms(2,3) asp by (simp add: findOptimalCropBounds_def sb pad Let_def)
qed

theorem crop_exact_rectangle_witness:
  "rect_mask small_mask 4 3 1 1 2 1
   \<and> findOptimalCropBounds small_mask 4 3 \<lparr> paddingPercentage = Some 0, minCropSize = Some 1 \<rparr>
       = Inr \<lparr> cb_x = 1, cb_y = 1, cb_width = 2, cb_height = 1 \<rparr>"
proof -
  have m: "rect_mask small_mask 4 3 1 1 2 1"
    by code_simp
  show ?thesis using m crop_exact_rectangle[OF m] by simp
qed

subsection \<open>The fallback without a subject\<close>

lemma findSubjectBounds_no_subject:
  "no_subject d w h \<Longrightarrow> findSubjectBounds d w h = None"
  by (rule findSubjectBounds_None) (simp add: no_subject_def)

lemma no_subject_replicate: "no_subject (replicate n 0) w h"
  by (simp add: no_subject_def seg_at_def)






text \<open>
  Claim C6. Every rectangle returned by the crop computation should have integer fields
  within the image. For an empty mask on a 200x126 image with the default options, the
  fallback rounds the position of the center square but not its side 100.8, and the
  returned width is 130.8.
\<close>

theorem fallback_width_not_integer:
  "findOptimalCropBounds (replicate 25200 0) 200 126 default_options
     = Inr \<lparr> cb_x = 35, cb_y = 0, cb_width = 130.8, cb_height = 126 \<rparr>
   \<and> \<not> rectangle_invariant 200 126 \<lparr> cb_x = 35, cb_y = 0, cb_width = 130.8, cb_height = 126 \<rparr>"
proof -
  have sb: "findSubjectBounds (replicate 25200 0) 200 126 = None"
    by (rule findSubjectBounds_no_subject) (rule no_subject_replicate)
  show ?thesis
    by (simp add: findOptimalCropBounds_def sb default_options_def fallbackBounds_def
        applyCropPadding_def aspect_extreme_def js_round_def rectangle_invariant_def
        is_integer_def Let_def)
qed

subsection \<open>Applying a crop\<close>












section \<open>Properties of the sharpener\<close>

lemma upt_3: "[0..<3] = [0, 1, 2]"
  by code_simp

lemma for_interior_product:
  "for_interior w h body s
     = fold (\<lambda>(y, x). body y x) (List.product [1..<h - 1] [1..<w - 1]) s"
  by (simp add: for_interior_def nested_fold)

lemma for_interior_preserves:
  assumes "\<And>y x s. 1 \<le> y \<Longrightarrow> y < h - 1 \<Longrightarrow> 1 \<le> x \<Longrightarrow> x < w - 1 \<Longrightarrow> I s \<Longrightarrow> I (body y x s)"
    and "I s"
  shows "I (for_interior w h body s)"
  unfolding for_interior_product
  by (rule fold_preserves[where I = I]) (use assms in auto)

lemma product_Nil_right: "List.product ys [] = []"
  by (induction ys) auto

lemma for_interior_small:
  assumes "w < 3 \<or> h < 3"
  shows "for_interior w h body s = s"
proof -
  have "[1..<w - 1] = [] \<or> [1..<h - 1] = []" using assms by auto
  then have "List.product [1..<h - 1] [1..<w - 1] = []"
    by (auto simp: product_Nil_right)
  then show ?thesis by (simp add: for_interior_product)
qed

lemma unsharp_pixel_shape:
  "unsharp_pixel original blurred w k y x r
     = write_pixel original ((y * w + x) * 4)
         (\<lambda>c. unsharp_value original blurred k ((y * w + x) * 4 + c)) r"
  by (simp add: unsharp_pixel_def write_pixel_def Let_def)

lemma laplacian_pixel_shape:
  "laplacian_pixel original w k y x r
     = write_pixel original ((y * w + x) * 4) (laplacian_value original w k y x) r"
  by (simp add: laplacian_pixel_def write_pixel_def Let_def)

lemma edge_pixel_shape:
  "edge_pixel original w k y x r
     = write_pixel original ((y * w + x) * 4) (edge_value original w k y x) r"
  by (simp add: edge_pixel_def write_pixel_def Let_def)

lemma length_write_pixel: "length (write_pixel original b v r) = length r"
  by (simp add: write_pixel_def copy_byte_def put_def upt_3)

text \<open>
  One pixel's writes keep a sample equal to the original one, when the sample is an alpha
  sample or belongs to another pixel.
\<close>

lemma write_pixel_keeps:
  assumes len: "length r = length original"
    and same: "r ! i = original ! i"
    and i: "i < length r"
    and other: "i mod 4 = 3 \<or> i div 4 \<noteq> p"
  shows "write_pixel original (p * 4) v r ! i = original ! i"
proof -
  have c: "i \<noteq> p * 4" "i \<noteq> p * 4 + 1" "i \<noteq> p * 4 + 2"
    using other by presburger+
  show ?thesis
  proof (cases "i = p * 4 + 3")
    case True
    then show ?thesis using len i
      by (simp add: write_pixel_def copy_byte_def put_def upt_3)
  next
    case False
    then show ?thesis using c same
      by (simp add: write_pixel_def copy_byte_def put_def upt_3)
  qed
qed

text \<open>A sample of a border pixel belongs to no interior pixel.\<close>

lemma border_not_interior:
  assumes "on_border w h x y" "c < 4" "1 \<le> y'" "y' < h - 1" "1 \<le> x'" "x' < w - 1"
  shows "((y * w + x) * 4 + c) div 4 \<noteq> y' * w + x'"
proof
  assume "((y * w + x) * 4 + c) div 4 = y' * w + x'"
  then have "y * w + x = y' * w + x'" using assms(2) by simp
  moreover have "x < w" "x' < w" using assms by (auto simp: on_border_def)
  ultimately have "y = y' \<and> x = x'" by (rule pixel_index_unique[rotated 2])
  then show False using assms by (auto simp: on_border_def)
qed


lemma interior_keeps:
  assumes body: "\<And>y x r. body y x r = write_pixel original ((y * w + x) * 4) (v y x) r"
    and k: "kept original i r" and i: "i < length original"
    and other: "i mod 4 = 3 \<or> (\<forall>y x. 1 \<le> y \<and> y < h - 1 \<and> 1 \<le> x \<and> x < w - 1 \<longrightarrow> i div 4 \<noteq> y * w + x)"
  shows "kept original i (for_interior w h body r)"
proof (rule for_interior_preserves[where I = "kept original i"])
  fix y x s
  assume "1 \<le> y" "y < h - 1" "1 \<le> x" "x < w - 1" and s: "kept original i s"
  then have o: "i mod 4 = 3 \<or> i div 4 \<noteq> y * w + x" using other by blast
  have "write_pixel original ((y * w + x) * 4) (v y x) s ! i = original ! i"
    using s i o by (intro write_pixel_keeps) (simp_all add: kept_def)
  then show "kept original i (body y x s)"
    using s by (simp add: body kept_def length_write_pixel)
qed (rule k)

lemma applyUnsharpMask_keeps:
  assumes "kept original i r" "i < length original"
    "i mod 4 = 3 \<or> (\<forall>y x. 1 \<le> y \<and> y < h - 1 \<and> 1 \<le> x \<and> x < w - 1 \<longrightarrow> i div 4 \<noteq> y * w + x)"
  shows "kept original i (applyUnsharpMask original r w h k)"
  unfolding applyUnsharpMask_def Let_def
  by (rule interior_keeps[OF unsharp_pixel_shape assms])

lemma applyLaplacianSharpening_keeps:
  assumes "kept original i r" "i < length original"
    "i mod 4 = 3 \<or> (\<forall>y x. 1 \<le> y \<and> y < h - 1 \<and> 1 \<le> x \<and> x < w - 1 \<longrightarrow> i div 4 \<noteq> y * w + x)"
  shows "kept original i (applyLaplacianSharpening original r w h k)"
  unfolding applyLaplacianSharpening_def
  by (rule interior_keeps[OF laplacian_pixel_shape assms])

lemma applyEdgeEnhancement_keeps:
  assumes "kept original i r" "i < length original"
    "i mod 4 = 3 \<or> (\<forall>y x. 1 \<le> y \<and> y < h - 1 \<and> 1 \<le> x \<and> x < w - 1 \<longrightarrow> i div 4 \<noteq> y * w + x)"
  shows "kept original i (applyEdgeEnhancement original r w h k)"
  unfolding applyEdgeEnhancement_def
  by (rule interior_keeps[OF edge_pixel_shape assms])

text \<open>The loop that copies the original data into the fresh buffer.\<close>

lemma copy_loop_prefix:
  assumes "length b = length d" "k \<le> length d"
  shows "fold (\<lambda>i nd. copy_byte d i nd i) [0..<k] b = take k d @ drop k b"
  using assms(2)
proof (induction k)
  case 0
  show ?case by simp
next
  case (Suc k)
  then have k: "k < length d" by simp
  have "fold (\<lambda>i nd. copy_byte d i nd i) [0..<Suc k] b
      = (take k d @ drop k b)[k := d ! k]"
    using Suc k by (simp add: copy_byte_def)
  also have "\<dots> = take (Suc k) d @ drop (Suc k) b"
    using k assms(1)
    by (simp add: list_update_append take_Suc_conv_app_nth upd_conv_take_nth_drop)
  finally show ?case .
qed

lemma copy_loop:
  "length b = length d \<Longrightarrow> fold (\<lambda>i nd. copy_byte d i nd i) [0..<length d] b = d"
  using copy_loop_prefix[of b d "length d"] by simp

lemma sharpenImage_wf:
  assumes "wf_image img"
  shows "sharpenImage img options = Inr (img\<lparr> img_data := sharpened_data img options \<rparr>)"
proof -
  have dims: "img_width img \<noteq> 0" "img_height img \<noteq> 0"
    and len: "length (replicate (img_width img * img_height img * 4) (0::byte)) = length (img_data img)"
    using assms by (simp_all add: wf_image_def)
  have cp: "fold (\<lambda>i nd. copy_byte (img_data img) i nd i) [0..<length (img_data img)]
              (replicate (img_width img * img_height img * 4) 0) = img_data img"
    using len by (rule copy_loop)
  show ?thesis
    using dims
    by (cases "sharpen_method options"; cases "the (sharpen_method options)")
       (simp_all add: sharpenImage_def blank_ImageData_def Let_def cp sharpened_data_def)
qed

lemma sharpened_data_keeps:
  assumes "i < length (img_data img)"
    "i mod 4 = 3 \<or> (\<forall>y x. 1 \<le> y \<and> y < img_height img - 1 \<and> 1 \<le> x \<and> x < img_width img - 1
         \<longrightarrow> i div 4 \<noteq> y * img_width img + x)"
  shows "kept (img_data img) i (sharpened_data img options)"
proof -
  have k: "kept (img_data img) i (img_data img)" by (simp add: kept_def)
  show ?thesis
    unfolding sharpened_data_def Let_def
    using applyUnsharpMask_keeps[OF k assms] applyLaplacianSharpening_keeps[OF k assms]
      applyEdgeEnhancement_keeps[OF k assms]
    by (simp split: option.split SharpeningMethod.split)
qed

lemma sharpened_data_small:
  "img_width img < 3 \<or> img_height img < 3 \<Longrightarrow> sharpened_data img options = img_data img"
  by (simp add: sharpened_data_def applyUnsharpMask_def applyLaplacianSharpening_def
      applyEdgeEnhancement_def for_interior_small Let_def
      split: option.split SharpeningMethod.split)

text \<open>
  Claim C5. For every well-formed input buffer, every intensity and each of the three
  methods (also when the options are left out), sharpening succeeds and every sample of
  a pixel on the one-pixel border of the output equals the corresponding input sample;
  an image with width below 3 or height below 3 is returned as an unmodified copy.
\<close>

theorem sharpen_preserves_border:
  assumes wf: "wf_image img"
  shows "\<exists>out. sharpenImage img options = Inr out
     \<and> img_width out = img_width img \<and> img_height out = img_height img
     \<and> length (img_data out) = length (img_data img)
     \<and> (\<forall>x y c. on_border (img_width img) (img_height img) x y \<and> c < 4 \<longrightarrow>
           img_data out ! ((y * img_width img + x) * 4 + c)
             = img_data img ! ((y * img_width img + x) * 4 + c))
     \<and> (img_width img < 3 \<or> img_height img < 3 \<longrightarrow> out = img)"
proof -
  let ?w = "img_width img" and ?h = "img_height img"
  let ?out = "img\<lparr> img_data := sharpened_data img options \<rparr>"
  have res: "sharpenImage img options = Inr ?out" using wf by (rule sharpenImage_wf)
  have len: "length (img_data img) = ?w * ?h * 4" using wf by (simp add: wf_image_def)
  have border: "img_data ?out ! ((y * ?w + x) * 4 + c) = img_data img ! ((y * ?w + x) * 4 + c)"
    and blen: "length (img_data ?out) = length (img_data img)"
    if b: "on_border ?w ?h x y" and c: "c < 4" for x y c
  proof -
    have "y * ?w + x < ?h * ?w"
    proof -
      have "y * ?w + x < y * ?w + ?w" using b by (simp add: on_border_def)
      also have "\<dots> = Suc y * ?w" by simp
      also have "\<dots> \<le> ?h * ?w" using b by (intro mult_le_mono1) (simp add: on_border_def)
      finally show ?thesis .
    qed
    then have i: "(y * ?w + x) * 4 + c < length (img_data img)"
      using c len by (simp add: mult.commute)
    have "kept (img_data img) ((y * ?w + x) * 4 + c) (sharpened_data img options)"
      using i border_not_interior[OF b c] by (intro sharpened_data_keeps) blast+
    then show "img_data ?out ! ((y * ?w + x) * 4 + c) = img_data img ! ((y * ?w + x) * 4 + c)"
      and "length (img_data ?out) = length (img_data img)"
      by (simp_all add: kept_def)
  qed
  have l: "length (img_data ?out) = length (img_data img)"
  proof -
    have "on_border ?w ?h 0 0" using wf by (simp add: on_border_def wf_image_def)
    then show ?thesis using blen[of 0 0 0] by simp
  qed
  have small: "?out = img" if "?w < 3 \<or> ?h < 3"
    using that by (simp add: sharpened_data_small)
  show ?thesis using res border l small by auto
qed

theorem sharpen_preserves_border_witness:
  "wf_image green_edge
   \<and> (\<exists>out. sharpenImage green_edge \<lparr> intensity = None, sharpen_method = Some Laplacian \<rparr> = Inr out
          \<and> img_data out ! 21 = 255)"
proof -
  have wf: "wf_image green_edge" by (simp add: wf_image_def green_edge_def)
  have dims: "img_width green_edge = 3" "img_height green_edge = 3"
    by (simp_all add: green_edge_def)
  have b: "on_border 3 3 2 1 \<and> (1::nat) < 4" by (simp add: on_border_def)
  obtain out where
    r: "sharpenImage green_edge \<lparr> intensity = None, sharpen_method = Some Laplacian \<rparr> = Inr out"
    and keep: "\<forall>x y c. on_border 3 3 x y \<and> c < 4 \<longrightarrow>
           img_data out ! ((y * 3 + x) * 4 + c) = img_data green_edge ! ((y * 3 + x) * 4 + c)"
    using sharpen_preserves_border[OF wf, of "\<lparr> intensity = None, sharpen_method = Some Laplacian \<rparr>"]
    unfolding dims by blast
  have "img_data out ! ((1 * 3 + 2) * 4 + 1) = img_data green_edge ! ((1 * 3 + 2) * 4 + 1)"
    using keep[rule_format, of 2 1 1] b by simp
  then have "img_data out ! 21 = 255" by (simp add: green_edge_def)
  then show ?thesis using wf r by blast
qed


text \<open>
  Claim C9. For every well-formed input buffer, every intensity and each of the three
  methods, the alpha sample of every pixel of the output equals the alpha sample of the
  same pixel of the input.
\<close>

theorem sharpen_copies_alpha:
  assumes wf: "wf_image img"
  shows "\<exists>out. sharpenImage img options = Inr out
     \<and> (\<forall>p < img_width img * img_height img.
           img_data out ! (p * 4 + 3) = img_data img ! (p * 4 + 3))"
proof -
  let ?out = "img\<lparr> img_data := sharpened_data img options \<rparr>"
  have res: "sharpenImage img options = Inr ?out" using wf by (rule sharpenImage_wf)
  have len: "length (img_data img) = img_width img * img_height img * 4"
    using wf by (simp add: wf_image_def)
  have "img_data ?out ! (p * 4 + 3) = img_data img ! (p * 4 + 3)"
    if "p < img_width img * img_height img" for p
  proof -
    have "kept (img_data img) (p * 4 + 3) (sharpened_data img options)"
      using that len by (intro sharpened_data_keeps) (simp_all add: mod_simps)
    then show ?thesis by (simp add: kept_def)
  qed
  then show ?thesis using res by blast
qed

theorem sharpen_copies_alpha_witness:
  "wf_image green_edge
   \<and> (\<exists>out. sharpenImage green_edge \<lparr> intensity = Some 2, sharpen_method = Some EdgeEnhance \<rparr> = Inr out
          \<and> img_data out ! 19 = 255)"
proof -
  have wf: "wf_image green_edge" by (simp add: wf_image_def green_edge_def)
  have dims: "img_width green_edge = 3" "img_height green_edge = 3"
    by (simp_all add: green_edge_def)
  obtain out where
    r: "sharpenImage green_edge \<lparr> intensity = Some 2, sharpen_method = Some EdgeEnhance \<rparr> = Inr out"
    and keep: "\<forall>p < 3 * 3. img_data out ! (p * 4 + 3) = img_data green_edge ! (p * 4 + 3)"
    using sharpen_copies_alpha[OF wf, of "\<lparr> intensity = Some 2, sharpen_method = Some EdgeEnhance \<rparr>"]
    unfolding dims by blast
  have "img_data out ! (4 * 4 + 3) = img_data green_edge ! (4 * 4 + 3)"
    using keep[rule_format, of 4] by simp
  then have "img_data out ! 19 = 255" by (simp add: green_edge_def)
  then show ?thesis using wf r by blast
qed


subsection \<open>The sharpness score\<close>

lemma sharpness_range:
  "analyzeImageSharpness img = Some v \<Longrightarrow> 0 \<le> v \<and> v \<le> 100"
  by (auto simp: analyzeImageSharpness_def Let_def split: option.splits if_splits)

lemma interior_3x3: "for_interior 3 3 body s = body (Suc 0) (Suc 0) s"
  by (simp add: for_interior_def numeral_2_eq_2)

lemma neighbourhood_center: "neighbourhood 3 (Suc 0) (Suc 0) 0 = [0, 4, 8, 12, 16, 20, 24, 28, 32]"
  by (simp add: neighbourhood_def)

lemma green_edge_red_pixel:
  "sharpness_pixel (img_data green_edge) 3 (Suc 0) (Suc 0) (Some 0, 0) = (Some 0, 1)"
  by (simp add: sharpness_pixel_def neighbourhood_center weighted_sum_def sample_def
      green_edge_def sobelX_def sobelY_def byte_val_def Let_def)

lemma green_edge_gray_pixel:
  "spec_sharpness_pixel (img_data green_edge) 3 (Suc 0) (Suc 0) (0, 0) = (598.74, 1)"
proof -
  have gx: "(\<Sum>(i, k) \<leftarrow> zip (neighbourhood 3 (Suc 0) (Suc 0) 0) sobelX. gray_at (img_data green_edge) i * k) = 598.74"
    by (simp add: neighbourhood_center sobelX_def gray_at_def green_edge_def byte_val_def)
  have gy: "(\<Sum>(i, k) \<leftarrow> zip (neighbourhood 3 (Suc 0) (Suc 0) 0) sobelY. gray_at (img_data green_edge) i * k) = 0"
    by (simp add: neighbourhood_center sobelY_def gray_at_def green_edge_def byte_val_def)
  have a: "byte_val (img_data green_edge ! ((Suc 0 * 3 + Suc 0) * 4 + 3)) = 255"
    by (simp add: green_edge_def byte_val_def)
  have s: "sqrt (598.74 * 598.74 + 0 * 0) = (598.74::real)"
    by (rule real_sqrt_unique) (simp_all add: power2_eq_square)
  show ?thesis
    unfolding spec_sharpness_pixel_def Let_def gx gy a s by simp
qed

text \<open>
  Claim C2. The sharpness score should be the average Sobel gradient magnitude over the
  grayscale-converted pixels, divided by 3 and clamped to 0..100. On a 3x3 opaque image
  with a vertical edge in the green channel only, that score is 100, but the code takes
  the gradients of the red channel alone (the grayscale value it computes is never used)
  and returns 0.
\<close>

theorem sharpness_ignores_green_edge:
  "wf_image green_edge
   \<and> analyzeImageSharpness green_edge = Some 0
   \<and> spec_sharpness green_edge = 100"
proof -
  have "wf_image green_edge" by (simp add: wf_image_def green_edge_def)
  moreover have "analyzeImageSharpness green_edge = Some 0"
  proof -
    have "img_width green_edge = 3" "img_height green_edge = 3" by (simp_all add: green_edge_def)
    then show ?thesis
      by (simp add: analyzeImageSharpness_def interior_3x3 green_edge_red_pixel)
  qed
  moreover have "spec_sharpness green_edge = 100"
  proof -
    have "img_width green_edge = 3" "img_height green_edge = 3" by (simp_all add: green_edge_def)
    then show ?thesis
      by (simp add: spec_sharpness_def interior_3x3 green_edge_gray_pixel)
  qed
  ultimately show ?thesis by simp
qed

section \<open>Properties of the palette extraction\<close>

lemma visit_sample_in_range:
  assumes "j * 4 + 3 < length d"
  shows "visit_sample d (j * 4) acc = (if valid_sample d j then acc @ [color_at d j] else acc)"
  using assms by (simp add: visit_sample_def sample_def valid_sample_def color_at_def)

lemma filter_upt_none:
  assumes "\<And>j. a \<le> j \<Longrightarrow> j < b \<Longrightarrow> \<not> P j"
  shows "filter P [a..<b] = []"
  using assms by (simp add: filter_empty_conv)

lemma stride_skip:
  fixes s :: nat
  assumes s: "0 < s"
  shows "filter (\<lambda>i. (i - j) mod s = 0 \<and> P i) [Suc j..<n]
       = filter (\<lambda>i. (i - (j + s)) mod s = 0 \<and> P i) [j + s..<n]"
proof (cases "j + s \<le> n")
  case True
  have split: "[Suc j..<n] = [Suc j..<j + s] @ [j + s..<n]"
    using True s upt_add_eq_append[of "Suc j" "j + s" "n - (j + s)"] by simp
  have none: "filter (\<lambda>i. (i - j) mod s = 0 \<and> P i) [Suc j..<j + s] = []"
  proof (rule filter_upt_none)
    fix i assume "Suc j \<le> i" "i < j + s"
    then have "0 < i - j" "i - j < s" by simp_all
    then show "\<not> ((i - j) mod s = 0 \<and> P i)" by simp
  qed
  have same: "filter (\<lambda>i. (i - j) mod s = 0 \<and> P i) [j + s..<n]
            = filter (\<lambda>i. (i - (j + s)) mod s = 0 \<and> P i) [j + s..<n]"
  proof (rule filter_cong[OF refl])
    fix i assume "i \<in> set [j + s..<n]"
    then have "i - j = (i - (j + s)) + s" by simp
    then have "(i - j) mod s = (i - (j + s)) mod s" by simp
    then show "((i - j) mod s = 0 \<and> P i) = ((i - (j + s)) mod s = 0 \<and> P i)" by simp
  qed
  show ?thesis unfolding split filter_append none same by simp
next
  case False
  have "filter (\<lambda>i. (i - j) mod s = 0 \<and> P i) [Suc j..<n] = []"
  proof (rule filter_upt_none)
    fix i assume "Suc j \<le> i" "i < n"
    then have "0 < i - j" "i - j < s" using False by simp_all
    then show "\<not> ((i - j) mod s = 0 \<and> P i)" by simp
  qed
  then show ?thesis using False by simp
qed

lemma sample_loop_refines:
  assumes "length d = n * 4" "i = j * 4"
  shows "sample_loop d q i acc
       = acc @ map (color_at d)
                (filter (\<lambda>t. (t - j) mod max 1 q = 0 \<and> valid_sample d t) [j..<n])"
  using assms
proof (induction d q i acc arbitrary: j rule: sample_loop.induct)
  case (1 d q i samples)
  let ?s = "max 1 q"
  show ?case
  proof (cases "i < length d")
    case False
    then have "n \<le> j" using "1.prems" by simp
    then show ?thesis using False by (subst sample_loop.simps) simp
  next
    case True
    then have jn: "j < n" using "1.prems" by simp
    then have rng: "j * 4 + 3 < length d" using "1.prems" by simp
    have step: "sample_loop d q i samples
        = sample_loop d q (i + ?s * 4) (visit_sample d i samples)"
      using True by (subst sample_loop.simps) simp
    have ih: "sample_loop d q (i + ?s * 4) (visit_sample d i samples)
        = visit_sample d i samples @ map (color_at d)
            (filter (\<lambda>t. (t - (j + ?s)) mod ?s = 0 \<and> valid_sample d t) [j + ?s..<n])"
      using "1.prems" by (intro "1.IH"[OF True]) (simp_all add: algebra_simps)
    have hd: "[j..<n] = j # [Suc j..<n]" using jn by (rule upt_conv_Cons)
    have skip: "filter (\<lambda>t. (t - j) mod ?s = 0 \<and> valid_sample d t) [Suc j..<n]
              = filter (\<lambda>t. (t - (j + ?s)) mod ?s = 0 \<and> valid_sample d t) [j + ?s..<n]"
      by (rule stride_skip) simp
    show ?thesis
      unfolding step ih hd
      using visit_sample_in_range[OF rng, of samples] "1.prems"(2) skip
      by simp
  qed
qed

lemma filter_only_zero:
  assumes "0 < n"
  shows "filter (\<lambda>j. j = 0 \<and> P j) [0..<n] = (if P 0 then [0] else [])"
proof -
  have hd: "[0..<n] = 0 # [Suc 0..<n]" using assms by (rule upt_conv_Cons)
  have "filter (\<lambda>j. j = 0 \<and> P j) [Suc 0..<n] = []"
    by (rule filter_upt_none) simp
  then show ?thesis unfolding hd by simp
qed

lemma samplePixels_working_set:
  assumes wf: "wf_image img"
  shows "samplePixels img maxSamples = working_set img maxSamples"
proof -
  let ?n = "img_width img * img_height img" and ?d = "img_data img"
  have len: "length ?d = ?n * 4"
    using wf by (simp add: wf_image_def)
  have n: "0 < ?n"
    using wf by (simp add: wf_image_def)
  show ?thesis
  proof (cases "maxSamples = 0")
    case True
    have pos: "0 < length ?d" unfolding len using n by linarith
    have "0 * 4 + 3 < length ?d" unfolding len using n by linarith
    then have "visit_sample ?d (0 * 4) [] = (if valid_sample ?d 0 then [] @ [color_at ?d 0] else [])"
      by (rule visit_sample_in_range)
    then have l: "samplePixels img maxSamples = (if valid_sample ?d 0 then [color_at ?d 0] else [])"
      using True pos by (simp add: samplePixels_def Let_def)
    have "filter (\<lambda>j. j = 0 \<and> valid_sample ?d j) [0..<?n] = (if valid_sample ?d 0 then [0] else [])"
      using n by (rule filter_only_zero)
    then have r: "working_set img maxSamples = (if valid_sample ?d 0 then [color_at ?d 0] else [])"
      using True by (simp add: working_set_def taken_def)
    show ?thesis unfolding l r ..
  next
    case False
    have "sample_loop ?d (?n div maxSamples) 0 []
        = [] @ map (color_at ?d)
            (filter (\<lambda>t. (t - 0) mod max 1 (?n div maxSamples) = 0 \<and> valid_sample ?d t) [0..<?n])"
      using len by (intro sample_loop_refines) simp_all
    then show ?thesis
      using False by (simp add: samplePixels_def working_set_def taken_def Let_def)
  qed
qed

text \<open>
  Claim C8. For every well-formed input buffer and parameters k and maxSamples, palette
  extraction fails with the insufficient-samples error if and only if the working set
  (the pixels at the sampling stride, without those of alpha below 128 and those of
  lightness below 5 or above 95) has fewer than k members; when it fails it returns the
  error and no palette, and otherwise the working set goes to the clustering stage.
\<close>

theorem insufficient_samples_iff:
  assumes wf: "wf_image img"
  shows "(\<exists>n. extractColorPalette cluster img k maxIterations maxSamples
              = Inl (NotEnoughValidPixels n k))
           = (length (working_set img maxSamples) < k)
       \<and> (length (working_set img maxSamples) < k \<longrightarrow>
            extractColorPalette cluster img k maxIterations maxSamples
              = Inl (NotEnoughValidPixels (length (working_set img maxSamples)) k))
       \<and> (\<not> length (working_set img maxSamples) < k \<longrightarrow>
            extractColorPalette cluster img k maxIterations maxSamples
              = Inr (cluster (working_set img maxSamples) k maxIterations))"
proof -
  let ?ws = "working_set img maxSamples"
  have sampled: "samplePixels img maxSamples = ?ws"
    using wf by (rule samplePixels_working_set)
  show ?thesis
  proof (cases "length ?ws < k")
    case True
    then have "extractColorPalette cluster img k maxIterations maxSamples
        = Inl (NotEnoughValidPixels (length ?ws) k)"
      by (simp add: extractColorPalette_def sampled)
    then show ?thesis using True by simp
  next
    case False
    then have "extractColorPalette cluster img k maxIterations maxSamples
        = Inr (cluster ?ws k maxIterations)"
      by (simp add: extractColorPalette_def sampled)
    then show ?thesis using False by simp
  qed
qed

theorem insufficient_samples_iff_witness:
  "wf_image gray_and_clear
   \<and> working_set gray_and_clear 5000 = [\<lparr> rgb_r = 128, rgb_g = 128, rgb_b = 128 \<rparr>]
   \<and> extractColorPalette (\<lambda>pixels k n. take k pixels) gray_and_clear 2 50 5000 = Inl (NotEnoughValidPixels 1 2)
   \<and> extractColorPalette (\<lambda>pixels k n. take k pixels) gray_and_clear 1 50 5000
       = Inr [\<lparr> rgb_r = 128, rgb_g = 128, rgb_b = 128 \<rparr>]"
proof -
  have wf: "wf_image gray_and_clear" by (simp add: wf_image_def gray_and_clear_def)
  have dims: "img_width gray_and_clear = 2" "img_height gray_and_clear = 1"
    by (simp_all add: gray_and_clear_def)
  have u: "[0..<2] = [0, Suc 0]" by (simp add: upt_rec)
  have v0: "valid_sample (img_data gray_and_clear) 0"
    by (simp add: valid_sample_def gray_and_clear_def lightness_def rgbToHsl_def byte_val_def Let_def)
  have v1: "\<not> valid_sample (img_data gray_and_clear) (Suc 0)"
    by (simp add: valid_sample_def gray_and_clear_def byte_val_def)
  have c0: "color_at (img_data gray_and_clear) 0 = \<lparr> rgb_r = 128, rgb_g = 128, rgb_b = 128 \<rparr>"
    by (simp add: color_at_def gray_and_clear_def byte_val_def)
  have ws: "working_set gray_and_clear 5000 = [\<lparr> rgb_r = 128, rgb_g = 128, rgb_b = 128 \<rparr>]"
    by (simp add: working_set_def dims taken_def u v0 v1 c0)
  show ?thesis
    using wf ws insufficient_samples_iff[OF wf, of "\<lambda>pixels k n. take k pixels" 2 50 5000]
      insufficient_samples_iff[OF wf, of "\<lambda>pixels k n. take k pixels" 1 50 5000]
    by simp
qed

end
